theory Spec2Isabelle
  imports Main
begin

section \<open>The pagination hook \<open>usePagination\<close>\<close>

text \<open>
  The hook lives in \<^verbatim>\<open>src/unnamed/part_009\<close>. Its numbers are JavaScript numbers, that
  is doubles; the hook only adds, subtracts, doubles and compares them. A number that
  holds an integer is written as this integer, of type \<open>int\<close>. The range computation is
  given twice: \<open>paginationRange\<close> reads the arithmetic of the source on the integers, and
  \<open>paginationRange_f64\<close> rounds the result of every operation as the double arithmetic
  does. The two agree while \<open>total\<close> and the current page are below \<open>2^53\<close> (lemma
  \<open>paginationRange_f64_exact\<close>). \<^verbatim>\<open>setPage\<close> only compares and needs no rounding.
\<close>

subsection \<open>Data\<close>

text \<open>
  An entry of the returned range has the TypeScript type \<^verbatim>\<open>number | 'dots'\<close>; the
  constant \<^verbatim>\<open>DOTS = 'dots'\<close> is the ellipsis marker.
\<close>

datatype item = Page int | DOTS

text \<open>
  Modelled from the spec: \<^verbatim>\<open>range\<close>, imported from \<^verbatim>\<open>'../../utils'\<close>, is not among
  the sources. The spec reads \<^verbatim>\<open>range(a, b)\<close> as the pages \<open>a..b\<close>, both ends
  included ("return every page \<open>1..total\<close>", "pages \<open>left..right\<close>"), and as the empty
  sequence when \<open>b < a\<close> ("if \<open>total == 0\<close> return an empty sequence").
\<close>

definition range_util :: "int \<Rightarrow> int \<Rightarrow> int list" where
  "range_util start end = [start..end]"

text \<open>The numbers of a \<^verbatim>\<open>range\<close> call, spread into an array of entries.\<close>

definition spread :: "int list \<Rightarrow> item list" where
  "spread ns = map Page ns"

subsection \<open>The range computation (lines 86 to 134)\<close>

text \<open>
  The body of the function given to \<^verbatim>\<open>useMemo\<close>, with the values it closes over
  as arguments. \<^verbatim>\<open>Math.max\<close> and \<^verbatim>\<open>Math.min\<close> are \<open>max\<close> and \<open>min\<close>; the three
  \<^verbatim>\<open>return\<close> statements after the first are the branches of the \<open>if\<close> chain, in the
  order of the source. The parameter \<^verbatim>\<open>total\<close> is written \<open>total'\<close>, since
  \<open>total\<close> is a constant of HOL.
\<close>

definition paginationRange :: "int \<Rightarrow> int \<Rightarrow> int \<Rightarrow> int \<Rightarrow> item list" where
  "paginationRange total' siblings boundaries activePage =
    (let totalPageNumbers = siblings * 2 + 3 + boundaries * 2 in
     if totalPageNumbers \<ge> total' then spread (range_util 1 total')
     else
       let leftSiblingIndex = max (activePage - siblings) boundaries;
           rightSiblingIndex = min (activePage + siblings) (total' - boundaries);
           shouldShowLeftDots = leftSiblingIndex > boundaries + 2;
           shouldShowRightDots = rightSiblingIndex < total' - (boundaries + 1)
       in
         if \<not> shouldShowLeftDots \<and> shouldShowRightDots then
           (let leftItemCount = siblings * 2 + boundaries + 2 in
              spread (range_util 1 leftItemCount)
              @ [DOTS]
              @ spread (range_util (total' - (boundaries - 1)) total'))
         else if shouldShowLeftDots \<and> \<not> shouldShowRightDots then
           (let rightItemCount = boundaries + 1 + 2 * siblings in
              spread (range_util 1 boundaries)
              @ [DOTS]
              @ spread (range_util (total' - rightItemCount) total'))
         else
           spread (range_util 1 boundaries)
           @ [DOTS]
           @ spread (range_util leftSiblingIndex rightSiblingIndex)
           @ [DOTS]
           @ spread (range_util (total' - boundaries + 1) total'))"

subsection \<open>The range computation on JavaScript numbers\<close>

text \<open>
  A JavaScript number is an IEEE 754 double. Every integer of magnitude up to \<open>2^53\<close>
  is a double; beyond, the doubles are the multiples of the spacing \<open>2\<close> up to \<open>2^54\<close>, of
  \<open>4\<close> up to \<open>2^55\<close>, and so on. \<open>ulp n\<close> is the spacing at magnitude \<open>n\<close>.
\<close>

fun ulp :: "nat \<Rightarrow> nat" where
  "ulp n = (if n < 2 ^ 53 then 1 else 2 * ulp (n div 2))"

declare ulp.simps [simp del]

text \<open>
  The result of an addition, a subtraction or a multiplication is the double nearest to
  the exact result, and of two nearest ones that with the even significand. \<open>f64 x\<close> is
  this double for the exact integer result \<open>x\<close>. Overflow to \<^verbatim>\<open>Infinity\<close>, which starts
  near \<open>2^1024\<close>, is not part of the model.
\<close>

definition f64 :: "int \<Rightarrow> int" where
  "f64 x =
    (let q = int (ulp (nat \<bar>x\<bar>)); d = x div q; r = x mod q in
     if 2 * r < q then d * q
     else if q < 2 * r then (d + 1) * q
     else if even d then d * q
     else (d + 1) * q)"

text \<open>
  Modelled from the spec: \<^verbatim>\<open>range\<close> on JavaScript numbers. The pages \<open>a..b\<close> of the
  spec are counted up from \<open>a\<close>: there are \<open>b - a + 1\<close> entries, the entry at index \<open>i\<close> is
  \<open>i + a\<close>, and each of these numbers is computed as a double. While nothing rounds, this
  is \<open>range_util\<close>.
\<close>

definition range_f64 :: "int \<Rightarrow> int \<Rightarrow> int list" where
  "range_f64 start end =
     map (\<lambda>index. f64 (int index + start)) [0 ..< nat (f64 (f64 (end - start) + 1))]"

text \<open>
  The body of the function given to \<^verbatim>\<open>useMemo\<close> once more, now with every arithmetic
  operation of the source rounded as the double arithmetic of JavaScript rounds it;
  \<^verbatim>\<open>siblings * 2 + 3 + boundaries * 2\<close> is evaluated from the left. This is what the
  code computes on numbers of any size; \<open>paginationRange\<close> above is what it computes
  while no operation rounds.
\<close>

definition paginationRange_f64 :: "int \<Rightarrow> int \<Rightarrow> int \<Rightarrow> int \<Rightarrow> item list" where
  "paginationRange_f64 total' siblings boundaries activePage =
    (let totalPageNumbers = f64 (f64 (f64 (siblings * 2) + 3) + f64 (boundaries * 2)) in
     if totalPageNumbers \<ge> total' then spread (range_f64 1 total')
     else
       let leftSiblingIndex = max (f64 (activePage - siblings)) boundaries;
           rightSiblingIndex =
             min (f64 (activePage + siblings)) (f64 (total' - boundaries));
           shouldShowLeftDots = leftSiblingIndex > f64 (boundaries + 2);
           shouldShowRightDots = rightSiblingIndex < f64 (total' - f64 (boundaries + 1))
       in
         if \<not> shouldShowLeftDots \<and> shouldShowRightDots then
           (let leftItemCount = f64 (f64 (f64 (siblings * 2) + boundaries) + 2) in
              spread (range_f64 1 leftItemCount)
              @ [DOTS]
              @ spread (range_f64 (f64 (total' - f64 (boundaries - 1))) total'))
         else if shouldShowLeftDots \<and> \<not> shouldShowRightDots then
           (let rightItemCount = f64 (f64 (boundaries + 1) + f64 (2 * siblings)) in
              spread (range_f64 1 boundaries)
              @ [DOTS]
              @ spread (range_f64 (f64 (total' - rightItemCount)) total'))
         else
           spread (range_f64 1 boundaries)
           @ [DOTS]
           @ spread (range_f64 leftSiblingIndex rightSiblingIndex)
           @ [DOTS]
           @ spread (range_f64 (f64 (f64 (total' - boundaries) + 1)) total'))"

subsection \<open>The held page and \<^verbatim>\<open>setPage\<close> (lines 62 to 79)\<close>

text \<open>
  What the hook keeps between two renders: the page held by \<^verbatim>\<open>useUncontrolled\<close> and
  the cell of \<^verbatim>\<open>useMemo\<close>, which stores the dependency array \<^verbatim>\<open>[total, siblings,
  activePage]\<close> of the last computation together with its result.
\<close>

record hook_state =
  activePage :: int
  memo :: "((int \<times> int \<times> int) \<times> item list) option"

text \<open>
  The rule handed to \<^verbatim>\<open>useUncontrolled\<close> (lines 67 and 68): a page value is accepted
  when it is a number (\<open>Some\<close>) that does not exceed \<^verbatim>\<open>total\<close>; \<^verbatim>\<open>null\<close> and
  \<^verbatim>\<open>undefined\<close> (\<open>None\<close>) are not.
\<close>

definition rule :: "int \<Rightarrow> int option \<Rightarrow> bool" where
  "rule total' page = (case page of None \<Rightarrow> False | Some n \<Rightarrow> n \<le> total')"

text \<open>
  Modelled from the spec: \<^verbatim>\<open>setActivePage\<close>, the setter returned by
  \<^verbatim>\<open>useUncontrolled\<close>, is not among the sources. By the spec "navigation operations
  update the held CurrentPage": the page the hook holds afterwards is the value given to
  the setter (the page is owned by the hook, not by its caller).
\<close>

definition setActivePage :: "int \<Rightarrow> hook_state \<Rightarrow> hook_state" where
  "setActivePage v st = st\<lparr>activePage := v\<rparr>"

definition setPage :: "int \<Rightarrow> int \<Rightarrow> hook_state \<Rightarrow> hook_state" where
  "setPage total' pageNumber st =
    (if pageNumber \<le> 0 then setActivePage 1 st
     else if pageNumber > total' then setActivePage total' st
     else setActivePage pageNumber st)"

subsection \<open>The page the hook reports\<close>

text \<open>
  Modelled from the spec: \<^verbatim>\<open>useUncontrolled\<close> is not among the sources. The hook
  calls it with \<^verbatim>\<open>value: page\<close>, \<^verbatim>\<open>defaultValue: initialPage\<close>, \<^verbatim>\<open>finalValue:
  initialPage\<close> and the rule above (lines 62 to 69), and returns the page it gets from it
  as \<^verbatim>\<open>active\<close>. By the spec the current page is "created at construction time from
  \<open>initialPage\<close> (clamped into range)", it is an "integer in \<open>[1, total]\<close> (or \<open>1\<close> if
  \<open>total == 0\<close>)", and in controlled mode "the external page value takes precedence over
  internally tracked state". The external value is the \<^verbatim>\<open>page\<close> argument when the rule
  accepts it.
\<close>

definition initialActivePage :: "int \<Rightarrow> int \<Rightarrow> int" where
  "initialActivePage total' initialPage =
     (if total' = 0 then 1 else max 1 (min initialPage total'))"

text \<open>
  Modelled from the spec: the field \<^verbatim>\<open>active\<close> of what the hook returns at its first
  render, which is the page that \<^verbatim>\<open>useUncontrolled\<close> hands back: the \<^verbatim>\<open>page\<close>
  argument when the rule accepts it, and else the page created from \<open>initialPage\<close>.
\<close>

definition active :: "int \<Rightarrow> int option \<Rightarrow> int \<Rightarrow> int" where
  "active total' page initialPage =
     (case page of
        None \<Rightarrow> initialActivePage total' initialPage
      | Some v \<Rightarrow> if rule total' page then v else initialActivePage total' initialPage)"

subsection \<open>One render of the hook\<close>

text \<open>
  \<^verbatim>\<open>useMemo(factory, deps)\<close> of React: the stored result is returned while the
  dependency array equals the stored one, entry by entry; otherwise the factory runs and
  its result is stored with the new array.
\<close>

definition useMemo ::
  "(unit \<Rightarrow> 'a) \<Rightarrow> 'd \<Rightarrow> ('d \<times> 'a) option \<Rightarrow> 'a \<times> ('d \<times> 'a) option" where
  "useMemo factory deps cell =
    (case cell of
       None \<Rightarrow> (let v = factory () in (v, Some (deps, v)))
     | Some (deps0, v0) \<Rightarrow>
         if deps0 = deps then (v0, cell)
         else (let v = factory () in (v, Some (deps, v))))"

text \<open>
  The \<^verbatim>\<open>range\<close> field that one call of \<^verbatim>\<open>usePagination\<close> returns, and the state
  left for the next call. The dependency array is the one of line 134.
\<close>

definition usePagination ::
  "int \<Rightarrow> int \<Rightarrow> int \<Rightarrow> hook_state \<Rightarrow> item list \<times> hook_state" where
  "usePagination total' siblings boundaries st =
    (let (r, cell) =
       useMemo (\<lambda>_. paginationRange total' siblings boundaries (activePage st))
         (total', siblings, activePage st) (memo st)
     in (r, st\<lparr>memo := cell\<rparr>))"

subsection \<open>Reading a range\<close>

text \<open>The numeric tokens of a range, in order.\<close>

fun pageNumbers :: "item list \<Rightarrow> int list" where
  "pageNumbers [] = []"
| "pageNumbers (Page n # items) = n # pageNumbers items"
| "pageNumbers (DOTS # items) = pageNumbers items"

text \<open>
  The pages an ellipsis stands for are those between the page number before it and the
  page number after it; before the first number lies page \<open>0\<close>, after the last one page
  \<open>total + 1\<close>. \<open>elided total prev items\<close> lists, for each marker of \<open>items\<close>, how many
  pages it stands for, \<open>prev\<close> being the last page number seen so far.
\<close>

fun nextPage :: "int \<Rightarrow> item list \<Rightarrow> int" where
  "nextPage total' [] = total' + 1"
| "nextPage total' (Page n # items) = n"
| "nextPage total' (DOTS # items) = nextPage total' items"

fun elided :: "int \<Rightarrow> int \<Rightarrow> item list \<Rightarrow> int list" where
  "elided total' prev [] = []"
| "elided total' prev (Page n # items) = elided total' n items"
| "elided total' prev (DOTS # items) =
     (nextPage total' items - prev - 1) # elided total' prev items"

section \<open>Auxiliary facts\<close>

subsection \<open>Entries, numbers and markers of spread ranges\<close>

lemma length_spread: "length (spread ns) = length ns"
  by (simp add: spread_def)

lemma set_spread: "set (spread ns) = Page ` set ns"
  by (simp add: spread_def)


lemma length_range_util: "length (range_util a b) = nat (b - a + 1)"
  by (simp add: range_util_def)

lemma set_range_util: "set (range_util a b) = {a..b}"
  by (simp add: range_util_def)

lemma sorted_range_util: "sorted_wrt (<) (range_util a b)"
  by (simp add: range_util_def)

lemma last_range_util: "last (prev # range_util a b) = (if a \<le> b then b else prev)"
  by (simp add: range_util_def upto_rec2)

lemma spread_range_Nil: "spread (range_util a b) = [] \<longleftrightarrow> b < a"
  by (simp add: spread_def range_util_def)

lemma hd_spread_range: "a \<le> b \<Longrightarrow> hd (spread (range_util a b) @ rest) = Page a"
  by (simp add: spread_def range_util_def upto_rec1)

lemma last_spread_range: "a \<le> b \<Longrightarrow> last (rest @ spread (range_util a b)) = Page b"
  by (simp add: spread_def range_util_def upto_rec2)

lemma pageNumbers_append: "pageNumbers (xs @ ys) = pageNumbers xs @ pageNumbers ys"
  by (induction xs rule: pageNumbers.induct) simp_all

lemma pageNumbers_spread: "pageNumbers (spread ns) = ns"
  by (induction ns) (simp_all add: spread_def)

lemma nextPage_spread:
  "nextPage t (spread ns @ rest) = (case ns of [] \<Rightarrow> nextPage t rest | n # _ \<Rightarrow> n)"
  by (cases ns) (simp_all add: spread_def)

lemma nextPage_range:
  "nextPage t (spread (range_util a b) @ rest) = (if a \<le> b then a else nextPage t rest)"
  by (simp add: nextPage_spread range_util_def upto_rec1)

lemma elided_spread:
  "elided t prev (spread ns @ rest) = elided t (last (prev # ns)) rest"
  by (induction ns arbitrary: prev) (simp_all add: spread_def)

lemma elided_spread_Nil: "elided t prev (spread ns) = []"
  using elided_spread [of t prev ns "[]"] by simp

subsection \<open>The four shapes of a range\<close>

text \<open>Each \<^verbatim>\<open>return\<close> of the source, under the tests that lead to it.\<close>

lemma range_dense:
  assumes "t \<le> s * 2 + 3 + b * 2"
  shows "paginationRange t s b p = spread (range_util 1 t)"
  unfolding paginationRange_def Let_def by (simp only: assms if_True)

lemma range_right:
  assumes "\<not> t \<le> s * 2 + 3 + b * 2"
    and "\<not> b + 2 < max (p - s) b" and "min (p + s) (t - b) < t - (b + 1)"
  shows "paginationRange t s b p =
     spread (range_util 1 (s * 2 + b + 2)) @ [DOTS] @ spread (range_util (t - (b - 1)) t)"
  unfolding paginationRange_def Let_def by (simp only: assms simp_thms if_True if_False)

lemma range_left:
  assumes "\<not> t \<le> s * 2 + 3 + b * 2"
    and "b + 2 < max (p - s) b" and "\<not> min (p + s) (t - b) < t - (b + 1)"
  shows "paginationRange t s b p =
     spread (range_util 1 b) @ [DOTS] @ spread (range_util (t - (b + 1 + 2 * s)) t)"
  unfolding paginationRange_def Let_def by (simp only: assms simp_thms if_True if_False)

lemma range_both:
  assumes "\<not> t \<le> s * 2 + 3 + b * 2"
    and "b + 2 < max (p - s) b" and "min (p + s) (t - b) < t - (b + 1)"
  shows "paginationRange t s b p =
     spread (range_util 1 b) @ [DOTS]
     @ spread (range_util (max (p - s) b) (min (p + s) (t - b))) @ [DOTS]
     @ spread (range_util (t - b + 1) t)"
  unfolding paginationRange_def Let_def by (simp only: assms simp_thms if_True if_False)

text \<open>
  With \<open>siblings\<close> and \<open>boundaries\<close> not negative, the last \<^verbatim>\<open>return\<close> is reached only
  with both markers wanted: were none wanted, the window \<open>2 * siblings + 3 + 2 *
  boundaries\<close> would cover \<^verbatim>\<open>total\<close>. In that shape the middle run is \<open>p - s .. p + s\<close>.
\<close>

lemma range_cases [consumes 2, case_names dense right left both]:
  assumes "0 \<le> s" "0 \<le> b"
  obtains
    (dense) "t \<le> s * 2 + 3 + b * 2"
      "paginationRange t s b p = spread (range_util 1 t)"
  | (right) "s * 2 + 3 + b * 2 < t" "p \<le> s + b + 2"
      "paginationRange t s b p =
         spread (range_util 1 (s * 2 + b + 2)) @ [DOTS] @ spread (range_util (t - (b - 1)) t)"
  | (left) "s * 2 + 3 + b * 2 < t" "t - b - 1 - s \<le> p"
      "paginationRange t s b p =
         spread (range_util 1 b) @ [DOTS] @ spread (range_util (t - (b + 1 + 2 * s)) t)"
  | (both) "s * 2 + 3 + b * 2 < t" "b + 2 < p - s" "p + s < t - (b + 1)"
      "paginationRange t s b p =
         spread (range_util 1 b) @ [DOTS] @ spread (range_util (p - s) (p + s)) @ [DOTS]
         @ spread (range_util (t - b + 1) t)"
proof (cases "t \<le> s * 2 + 3 + b * 2")
  case True
  with dense range_dense show ?thesis by blast
next
  case w: False
  show ?thesis
  proof (cases "b + 2 < max (p - s) b")
    case l: True
    show ?thesis
    proof (cases "min (p + s) (t - b) < t - (b + 1)")
      case r: True
      from l r have m: "max (p - s) b = p - s" "min (p + s) (t - b) = p + s" by auto
      from range_both [OF w l r] have
        "paginationRange t s b p =
           spread (range_util 1 b) @ [DOTS] @ spread (range_util (p - s) (p + s)) @ [DOTS]
           @ spread (range_util (t - b + 1) t)"
        by (simp only: m)
      moreover from l r w have "s * 2 + 3 + b * 2 < t" "b + 2 < p - s" "p + s < t - (b + 1)"
        by auto
      ultimately show ?thesis using both by blast
    next
      case r: False
      from l r w have "s * 2 + 3 + b * 2 < t" "t - b - 1 - s \<le> p" by auto
      with range_left [OF w l r] left show ?thesis by blast
    qed
  next
    case l: False
    from l w assms have r: "min (p + s) (t - b) < t - (b + 1)" by auto
    from l w have "s * 2 + 3 + b * 2 < t" "p \<le> s + b + 2" by auto
    with range_right [OF w l r] right show ?thesis by blast
  qed
qed

lemma range_sorted:
  assumes "0 \<le> s" "0 \<le> b"
  shows "sorted_wrt (<) (pageNumbers (paginationRange t s b p))"
  using assms
proof (cases rule: range_cases [of s b t p])
  case dense
  then show ?thesis by (simp add: pageNumbers_spread sorted_range_util)
next
  case right
  then show ?thesis using assms
    by (simp add: pageNumbers_append pageNumbers_spread sorted_range_util sorted_wrt_append
        set_range_util)
next
  case left
  then show ?thesis using assms
    by (simp add: pageNumbers_append pageNumbers_spread sorted_range_util sorted_wrt_append
        set_range_util)
next
  case both
  then show ?thesis using assms
    by (auto simp add: pageNumbers_append pageNumbers_spread sorted_range_util
        sorted_wrt_append set_range_util)
qed

lemma spread_range_empty: "b < a \<Longrightarrow> spread (range_util a b) = []"
  by (simp add: spread_def range_util_def)

lemma range_first_last:
  assumes "1 \<le> t" and "0 \<le> s" and "0 \<le> b"
  shows "paginationRange t s b p \<noteq> []"
    and "hd (paginationRange t s b p) =
      (if b = 0 \<and> 2 * s + 3 < t \<and> 2 < p - s then DOTS else Page 1)"
    and "last (paginationRange t s b p) =
      (if b = 0 \<and> 2 * s + 3 < t \<and> p + s < t - 1 then DOTS else Page t)"
proof -
  have "paginationRange t s b p \<noteq> []
    \<and> hd (paginationRange t s b p) =
      (if b = 0 \<and> 2 * s + 3 < t \<and> 2 < p - s then DOTS else Page 1)
    \<and> last (paginationRange t s b p) =
      (if b = 0 \<and> 2 * s + 3 < t \<and> p + s < t - 1 then DOTS else Page t)"
    using assms(2,3)
  proof (cases rule: range_cases [of s b t p])
    case dense
    with assms hd_spread_range [of 1 t "[]"] last_spread_range [of 1 t "[]"]
    show ?thesis by (simp add: spread_range_Nil spread_range_empty)
  next
    case right
    show ?thesis
    proof (cases "b = 0")
      case True
      with right assms hd_spread_range [of 1 "s * 2 + b + 2"]
      show ?thesis by (simp add: spread_range_Nil spread_range_empty)
    next
      case False
      with right assms hd_spread_range [of 1 "s * 2 + b + 2"]
        last_spread_range [of "t - (b - 1)" t "spread (range_util 1 (s * 2 + b + 2)) @ [DOTS]"]
      show ?thesis by simp
    qed
  next
    case left
    show ?thesis
    proof (cases "b = 0")
      case True
      with left assms
        last_spread_range [of "t - (b + 1 + 2 * s)" t "spread (range_util 1 b) @ [DOTS]"]
      show ?thesis by (simp add: spread_range_Nil spread_range_empty)
    next
      case False
      with left assms hd_spread_range [of 1 b]
        last_spread_range [of "t - (b + 1 + 2 * s)" t "spread (range_util 1 b) @ [DOTS]"]
      show ?thesis by simp
    qed
  next
    case both
    show ?thesis
    proof (cases "b = 0")
      case True
      with both assms show ?thesis by (simp add: spread_range_Nil spread_range_empty)
    next
      case False
      with both assms hd_spread_range [of 1 b]
        last_spread_range [of "t - b + 1" t
          "spread (range_util 1 b) @ [DOTS] @ spread (range_util (p - s) (p + s)) @ [DOTS]"]
      show ?thesis by simp
    qed
  qed
  then show "paginationRange t s b p \<noteq> []"
    and "hd (paginationRange t s b p) =
      (if b = 0 \<and> 2 * s + 3 < t \<and> 2 < p - s then DOTS else Page 1)"
    and "last (paginationRange t s b p) =
      (if b = 0 \<and> 2 * s + 3 < t \<and> p + s < t - 1 then DOTS else Page t)"
    by simp_all
qed

lemma range_elided:
  assumes "1 \<le> t" and "0 \<le> s" and "0 \<le> b" and "1 \<le> p" and "p \<le> t"
    and "g \<in> set (elided t 0 (paginationRange t s b p))"
  shows "2 \<le> g"
  using assms(2,3)
proof (cases rule: range_cases [of s b t p])
  case dense
  with assms(6) show ?thesis by (simp add: elided_spread_Nil)
next
  case right
  have "last (0 # range_util 1 (s * 2 + b + 2)) = s * 2 + b + 2"
    using assms by (simp only: last_range_util) simp
  moreover have "nextPage t (spread (range_util (t - (b - 1)) t) @ []) =
      (if 1 \<le> b then t - (b - 1) else t + 1)"
    by (simp only: nextPage_range) simp
  ultimately have "elided t 0 (paginationRange t s b p) =
      [(if 1 \<le> b then t - (b - 1) else t + 1) - (s * 2 + b + 2) - 1]"
    using right(3) by (simp add: elided_spread elided_spread_Nil)
  with assms(3,6) right(1) show ?thesis by (simp split: if_splits)
next
  case left
  have "last (0 # range_util 1 b) = b"
    using assms by (simp only: last_range_util) simp
  moreover have "nextPage t (spread (range_util (t - (b + 1 + 2 * s)) t) @ []) =
      t - (b + 1 + 2 * s)"
    using assms by (simp only: nextPage_range) simp
  ultimately have "elided t 0 (paginationRange t s b p) = [t - (b + 1 + 2 * s) - b - 1]"
    using left(3) by (simp add: elided_spread elided_spread_Nil)
  with assms(6) left(1) show ?thesis by simp
next
  case both
  have 1: "last (0 # range_util 1 b) = b"
    using assms by (simp only: last_range_util) simp
  have 2: "nextPage t (spread (range_util (p - s) (p + s)) @ rest) = p - s" for rest
    using assms by (simp only: nextPage_range) simp
  have 3: "last (b # range_util (p - s) (p + s)) = p + s"
    using assms by (simp only: last_range_util) simp
  have 4: "nextPage t (spread (range_util (t - b + 1) t) @ []) = t - b + 1"
    using assms by (simp only: nextPage_range) auto
  have "elided t 0 (paginationRange t s b p) = [p - s - b - 1, t - b + 1 - (p + s) - 1]"
    using 1 2 3 4 both(4) by (simp add: elided_spread elided_spread_Nil)
  with assms(6) both show ?thesis by auto
qed

lemma range_length:
  assumes "0 \<le> t" and "0 \<le> s" and "0 \<le> b"
  shows "int (length (paginationRange t s b p)) \<le> 2 * b + 2 * s + 3"
  using assms(2,3)
proof (cases rule: range_cases [of s b t p])
  case dense
  with assms show ?thesis by (simp add: length_spread length_range_util)
next
  case right
  with assms show ?thesis by (simp add: length_spread length_range_util)
next
  case left
  with assms show ?thesis by (simp add: length_spread length_range_util)
next
  case both
  with assms show ?thesis by (simp add: length_spread length_range_util)
qed

lemma range_member:
  assumes "1 \<le> t" and "0 \<le> s" and "0 \<le> b" and "1 \<le> p" and "p \<le> t"
  shows "Page p \<in> set (paginationRange t s b p)"
  using assms(2,3)
proof (cases rule: range_cases [of s b t p])
  case dense
  with assms show ?thesis by (simp add: set_spread set_range_util)
next
  case right
  with assms show ?thesis by (simp add: set_spread set_range_util)
next
  case left
  with assms show ?thesis by (simp add: set_spread set_range_util)
next
  case both
  with assms show ?thesis by (simp add: set_spread set_range_util)
qed


subsection \<open>Doubles that hold integers\<close>

text \<open>
  Integers of magnitude up to \<open>2^53\<close> are doubles, and rounding never takes a number
  from \<open>2^53\<close> on below \<open>2^53\<close>.
\<close>

lemma ulp_small: "n < 2 ^ 53 \<Longrightarrow> ulp n = 1"
  by (simp add: ulp.simps)

lemma ulp_large: "2 ^ 53 \<le> n \<Longrightarrow> 2 \<le> ulp n \<and> 2 ^ 52 * ulp n \<le> n"
proof (induction n rule: ulp.induct)
  case (1 n)
  from "1.prems" have u: "ulp n = 2 * ulp (n div 2)" by (simp add: ulp.simps [of n])
  show ?case
  proof (cases "n div 2 < 2 ^ 53")
    case True
    then have "ulp (n div 2) = 1" by (rule ulp_small)
    with u "1.prems" show ?thesis by simp
  next
    case False
    with "1.IH" "1.prems" have ih: "2 \<le> ulp (n div 2)" "2 ^ 52 * ulp (n div 2) \<le> n div 2"
      by simp_all
    from ih(2) have "2 * (2 ^ 52 * ulp (n div 2)) \<le> 2 * (n div 2)" by simp
    also have "\<dots> \<le> n" by simp
    finally show ?thesis using ih(1) u by simp
  qed
qed

lemma ulp_first: "2 ^ 53 \<le> n \<Longrightarrow> n div 2 < 2 ^ 53 \<Longrightarrow> ulp n = 2"
  by (simp add: ulp.simps [of n] ulp_small)

lemma f64_exact:
  assumes "- (2 ^ 53) \<le> x" and "x \<le> 2 ^ 53"
  shows "f64 x = x"
proof (cases "\<bar>x\<bar> < 2 ^ 53")
  case True
  then have "nat \<bar>x\<bar> < 2 ^ 53" by simp
  then have "ulp (nat \<bar>x\<bar>) = 1" by (rule ulp_small)
  then show ?thesis by (simp add: f64_def)
next
  case False
  with assms have a: "\<bar>x\<bar> = 2 ^ 53" by simp
  then have "ulp (nat \<bar>x\<bar>) = 2" by (intro ulp_first) simp_all
  then have q: "int (ulp (nat \<bar>x\<bar>)) = 2" by simp
  from a have "x = 2 ^ 53 \<or> x = - (2 ^ 53)" by (simp add: abs_if split: if_splits)
  then have "x mod 2 = 0" by auto
  moreover from this have "x div 2 * 2 = x" by presburger
  ultimately show ?thesis unfolding f64_def Let_def q by simp
qed

lemma f64_ge:
  assumes "2 ^ 53 \<le> x"
  shows "2 ^ 53 \<le> f64 x"
proof -
  define n where "n = nat \<bar>x\<bar>"
  define q where "q = int (ulp n)"
  from assms have x: "x = int n" by (simp add: n_def)
  with assms have n: "2 ^ 53 \<le> n" by simp
  from ulp_large [OF n] have u: "2 \<le> ulp n" "2 ^ 52 * ulp n \<le> n"
    by simp_all
  from u(1) have q1: "2 \<le> q" by (simp add: q_def)
  from u(2) have "int (2 ^ 52 * ulp n) \<le> int n" by (rule iffD2 [OF of_nat_le_iff])
  then have q2: "2 ^ 52 * q \<le> x" by (simp add: q_def x)
  from q1 q2 have "(2 ^ 52 * q) div q \<le> x div q" by (intro zdiv_mono1) simp_all
  with q1 have "2 ^ 52 \<le> x div q" by simp
  with q1 have "2 ^ 52 * 2 \<le> (x div q) * q" by (intro mult_mono) simp_all
  then have d: "2 ^ 53 \<le> (x div q) * q" by simp
  with q1 have "2 ^ 53 \<le> (x div q + 1) * q" by (simp add: algebra_simps)
  with d show ?thesis unfolding f64_def Let_def n_def [symmetric] q_def [symmetric] by simp
qed

lemma f64_lower:
  assumes "0 \<le> x"
  shows "min x (2 ^ 53) \<le> f64 x"
proof (cases "x \<le> 2 ^ 53")
  case True
  with assms have "f64 x = x" by (intro f64_exact) simp_all
  then show ?thesis by simp
next
  case False
  then have "2 ^ 53 \<le> f64 x" by (intro f64_ge) simp
  then show ?thesis by simp
qed

subsection \<open>Where the double arithmetic is exact\<close>

lemma range_f64_exact:
  assumes "0 \<le> a" and "a \<le> 2 ^ 53" and "0 \<le> e" and "e < 2 ^ 53"
  shows "range_f64 a e = range_util a e"
proof -
  from assms have "f64 (e - a) = e - a" by (intro f64_exact) simp_all
  moreover from assms have "f64 (e - a + 1) = e - a + 1" by (intro f64_exact) simp_all
  ultimately have r: "range_f64 a e = map (\<lambda>index. f64 (int index + a)) [0 ..< nat (e - a + 1)]"
    by (simp add: range_f64_def)
  show ?thesis unfolding r range_util_def
  proof (rule nth_equalityI)
    show "length (map (\<lambda>index. f64 (int index + a)) [0..<nat (e - a + 1)]) = length [a..e]"
      by simp
  next
    fix i
    assume "i < length (map (\<lambda>index. f64 (int index + a)) [0..<nat (e - a + 1)])"
    then have i: "int i + a \<le> e" by simp
    with assms have "f64 (int i + a) = int i + a" by (intro f64_exact) simp_all
    moreover from i have "[a..e] ! i = a + int i" by (intro nth_upto) simp
    ultimately show "map (\<lambda>index. f64 (int index + a)) [0..<nat (e - a + 1)] ! i = [a..e] ! i"
      using \<open>i < length (map (\<lambda>index. f64 (int index + a)) [0..<nat (e - a + 1)])\<close> by simp
  qed
qed

lemma window_f64:
  assumes "0 \<le> s" and "0 \<le> b"
  shows "min (s * 2 + 3 + b * 2) (2 ^ 53) \<le> f64 (f64 (f64 (s * 2) + 3) + f64 (b * 2))"
proof -
  from assms have 1: "min (s * 2) (2 ^ 53) \<le> f64 (s * 2)" by (intro f64_lower) simp
  with assms have "0 \<le> f64 (s * 2) + 3" by simp
  then have 2: "min (f64 (s * 2) + 3) (2 ^ 53) \<le> f64 (f64 (s * 2) + 3)" by (rule f64_lower)
  from assms have 3: "min (b * 2) (2 ^ 53) \<le> f64 (b * 2)" by (intro f64_lower) simp
  from 1 2 3 assms have "0 \<le> f64 (f64 (s * 2) + 3) + f64 (b * 2)" by simp
  then have 4: "min (f64 (f64 (s * 2) + 3) + f64 (b * 2)) (2 ^ 53)
      \<le> f64 (f64 (f64 (s * 2) + 3) + f64 (b * 2))" by (rule f64_lower)
  from 1 2 3 4 assms show ?thesis by (simp add: min_def split: if_splits)
qed

text \<open>
  With \<open>total\<close> and the current page below \<open>2^53\<close> the code computes the range of the
  integer reading: either the window covers \<open>total\<close>, also when computing it rounds, or
  every operation of the source stays within \<open>2^53\<close>, except possibly \<^verbatim>\<open>activePage +
  siblings\<close>, which the minimum with \<^verbatim>\<open>total - boundaries\<close> then discards.
\<close>

lemma f64_dense:
  assumes "0 \<le> s" and "0 \<le> b" and "0 \<le> t" and "t < 2 ^ 53"
    and "t \<le> s * 2 + 3 + b * 2"
  shows "paginationRange_f64 t s b p = paginationRange t s b p"
proof -
  from window_f64 [OF assms(1,2)] assms(4,5)
  have w: "t \<le> f64 (f64 (f64 (s * 2) + 3) + f64 (b * 2))" by simp
  have "paginationRange_f64 t s b p = spread (range_f64 1 t)"
    unfolding paginationRange_f64_def Let_def by (simp only: w if_True)
  also from assms have "range_f64 1 t = range_util 1 t" by (intro range_f64_exact) simp_all
  also have "spread (range_util 1 t) = paginationRange t s b p"
    unfolding paginationRange_def Let_def by (simp only: assms(5) if_True)
  finally show ?thesis .
qed

lemma f64_elided:
  assumes "0 \<le> s" and "0 \<le> b" and "t < 2 ^ 53" and "0 \<le> p" and "p < 2 ^ 53"
    and w: "s * 2 + 3 + b * 2 < t"
  shows "paginationRange_f64 t s b p = paginationRange t s b p"
proof -
  note a = assms
  have e1: "f64 (s * 2) = s * 2" "f64 (b * 2) = b * 2" "f64 (2 * s) = 2 * s"
    "f64 (s * 2 + 3) = s * 2 + 3" "f64 (s * 2 + 3 + b * 2) = s * 2 + 3 + b * 2"
    using a by - (rule f64_exact, linarith, linarith)+
  have e2: "f64 (p - s) = p - s" "f64 (t - b) = t - b" "f64 (b + 2) = b + 2"
    "f64 (b + 1) = b + 1" "f64 (t - (b + 1)) = t - (b + 1)"
    using a by - (rule f64_exact, linarith, linarith)+
  have e3: "f64 (s * 2 + b) = s * 2 + b" "f64 (s * 2 + b + 2) = s * 2 + b + 2"
    "f64 (b - 1) = b - 1" "f64 (t - (b - 1)) = t - (b - 1)"
    "f64 (b + 1 + 2 * s) = b + 1 + 2 * s" "f64 (t - (b + 1 + 2 * s)) = t - (b + 1 + 2 * s)"
    "f64 (t - b + 1) = t - b + 1"
    using a by - (rule f64_exact, linarith, linarith)+
  have e4: "min (f64 (p + s)) (t - b) = min (p + s) (t - b)"
  proof (cases "p + s \<le> 2 ^ 53")
    case True
    with a have "f64 (p + s) = p + s" by (intro f64_exact) simp_all
    then show ?thesis by simp
  next
    case False
    then have "2 ^ 53 \<le> f64 (p + s)" by (intro f64_ge) simp
    with False a show ?thesis by simp
  qed
  have r: "range_f64 1 t = range_util 1 t"
    "range_f64 1 (s * 2 + b + 2) = range_util 1 (s * 2 + b + 2)"
    "range_f64 (t - (b - 1)) t = range_util (t - (b - 1)) t"
    "range_f64 1 b = range_util 1 b"
    "range_f64 (t - (b + 1 + 2 * s)) t = range_util (t - (b + 1 + 2 * s)) t"
    "range_f64 (max (p - s) b) (min (p + s) (t - b))
       = range_util (max (p - s) b) (min (p + s) (t - b))"
    "range_f64 (t - b + 1) t = range_util (t - b + 1) t"
    using a by - (rule range_f64_exact, linarith, linarith, linarith, linarith)+
  show ?thesis
    unfolding paginationRange_f64_def paginationRange_def Let_def
    by (simp only: e1 e2 e3 e4 r)
qed

lemma paginationRange_f64_exact:
  assumes "0 \<le> s" and "0 \<le> b" and "0 \<le> t" and "t < 2 ^ 53" and "0 \<le> p" and "p < 2 ^ 53"
  shows "paginationRange_f64 t s b p = paginationRange t s b p"
proof (cases "t \<le> s * 2 + 3 + b * 2")
  case True
  with assms(1-4) show ?thesis by (rule f64_dense)
next
  case False
  then have "s * 2 + 3 + b * 2 < t" by simp
  with assms(1,2,4-6) show ?thesis by (rule f64_elided)
qed

lemma f64_total_zero:
  assumes "0 \<le> s" and "0 \<le> b"
  shows "paginationRange_f64 0 s b p = []"
proof -
  from assms have "paginationRange_f64 0 s b p = paginationRange 0 s b p"
    by (intro f64_dense) simp_all
  also from assms have "\<dots> = spread (range_util 1 0)" by (intro range_dense) simp
  finally show ?thesis by (simp add: spread_def range_util_def)
qed

subsection \<open>Some doubles beyond \<open>2^53\<close>\<close>

lemma f64_beyond:
  "f64 9007199254740993 = 9007199254740992"
  "f64 9007199254740994 = 9007199254740994"
  "f64 9007199254740995 = 9007199254740996"
  "f64 9007199254740996 = 9007199254740996"
  "f64 9007199254740997 = 9007199254740996"
  "f64 9007199254740998 = 9007199254740998"
  by (simp_all add: f64_def ulp.simps Let_def)

lemmas f64_eval =
  paginationRange_f64_def range_f64_def spread_def Let_def upt_conv_Cons f64_exact f64_beyond

subsection \<open>Evaluation on concrete inputs\<close>

lemmas range_eval = paginationRange_def spread_def range_util_def upto.simps Let_def

lemmas hook_eval = usePagination_def useMemo_def setPage_def setActivePage_def

text \<open>The examples of the documentation comment of the hook (lines 35 to 52).\<close>

lemma documented_examples:
  "paginationRange 10 1 1 1 = [Page 1, Page 2, Page 3, Page 4, Page 5, DOTS, Page 10]"
  "paginationRange 10 1 1 5 = [Page 1, DOTS, Page 4, Page 5, Page 6, DOTS, Page 10]"
  "paginationRange 10 1 1 6 = [Page 1, DOTS, Page 5, Page 6, Page 7, DOTS, Page 10]"
  "paginationRange 10 1 1 10 = [Page 1, DOTS, Page 6, Page 7, Page 8, Page 9, Page 10]"
  by (simp_all add: range_eval)

section \<open>The range\<close>

subsection \<open>Order and end points\<close>

text \<open>
  Claim C1 as stated fails in two ways, at inputs of the stated domain. Without boundary
  pages the range can end with the marker: with \<open>total = 10\<close>, \<open>siblings = 1\<close>,
  \<open>boundaries = 0\<close> and current page \<open>1\<close> it is \<open>1, 2, 3, 4, dots\<close>, since
  \<^verbatim>\<open>range(total - (boundaries - 1), total)\<close> is \<^verbatim>\<open>range(11, 10)\<close>. And from \<open>2^53\<close> on the
  arithmetic rounds: with \<open>total = 2^53 + 2\<close>, \<open>siblings = boundaries = 1\<close> and current
  page \<open>2^53 + 2\<close> the page number \<open>2^53\<close> occurs twice in the range.
\<close>

theorem range_order_and_ends_counterexample:
  "(1::int) \<le> 10 \<and> (0::int) \<le> 1 \<and> (0::int) \<le> 0 \<and> (1::int) \<le> 1 \<and> (1::int) \<le> 10
   \<and> paginationRange_f64 10 1 0 1 = [Page 1, Page 2, Page 3, Page 4, DOTS]
   \<and> last (paginationRange_f64 10 1 0 1) \<noteq> Page 10
   \<and> (1::int) \<le> 9007199254740994
   \<and> pageNumbers (paginationRange_f64 9007199254740994 1 1 9007199254740994) =
       [1, 9007199254740990, 9007199254740991, 9007199254740992, 9007199254740992,
        9007199254740994]
   \<and> \<not> sorted_wrt (<) (pageNumbers (paginationRange_f64 9007199254740994 1 1 9007199254740994))"
proof -
  have 1: "paginationRange_f64 10 1 0 1 = [Page 1, Page 2, Page 3, Page 4, DOTS]"
    by (simp add: f64_eval)
  have 2: "pageNumbers (paginationRange_f64 9007199254740994 1 1 9007199254740994) =
       [1, 9007199254740990, 9007199254740991, 9007199254740992, 9007199254740992,
        9007199254740994]"
    by (simp add: f64_eval)
  show ?thesis unfolding 1 2 by simp
qed

text \<open>
  Claim C1, amended: for every \<open>total\<close> with \<open>1 \<le> total < 2^53\<close>, \<open>siblings \<ge> 0\<close>,
  \<open>boundaries \<ge> 0\<close> and current page in \<open>[1, total]\<close>, the range is not empty and its
  numeric tokens are strictly increasing. Its first token is the page number \<open>1\<close>, except
  that it is the marker when \<open>boundaries = 0\<close> and pages are elided on the left (\<open>2 *
  siblings + 3 < total\<close> and \<open>page - siblings > 2\<close>). Its last token is the page number
  \<open>total\<close>, except that it is the marker when \<open>boundaries = 0\<close> and pages are elided on the
  right (\<open>2 * siblings + 3 < total\<close> and \<open>page + siblings < total - 1\<close>).
\<close>

theorem range_increasing_first_last:
  assumes "1 \<le> t" and "t < 2 ^ 53" and "0 \<le> s" and "0 \<le> b" and "1 \<le> p" and "p \<le> t"
  shows "sorted_wrt (<) (pageNumbers (paginationRange_f64 t s b p))
    \<and> paginationRange_f64 t s b p \<noteq> []
    \<and> hd (paginationRange_f64 t s b p) =
        (if b = 0 \<and> 2 * s + 3 < t \<and> 2 < p - s then DOTS else Page 1)
    \<and> last (paginationRange_f64 t s b p) =
        (if b = 0 \<and> 2 * s + 3 < t \<and> p + s < t - 1 then DOTS else Page t)"
proof -
  from assms have "paginationRange_f64 t s b p = paginationRange t s b p"
    by (intro paginationRange_f64_exact) simp_all
  with assms range_sorted [of s b t p] range_first_last [of t s b p]
  show ?thesis by simp
qed

theorem range_increasing_first_last_witness:
  "(1::int) \<le> 10 \<and> (10::int) < 2 ^ 53 \<and> (0::int) \<le> 1 \<and> (0::int) \<le> 0
   \<and> (1::int) \<le> 5 \<and> (5::int) \<le> 10
   \<and> sorted_wrt (<) (pageNumbers (paginationRange_f64 10 1 1 5))
   \<and> paginationRange_f64 10 1 1 5 \<noteq> []
   \<and> hd (paginationRange_f64 10 1 1 5) = Page 1
   \<and> last (paginationRange_f64 10 1 1 5) = Page 10
   \<and> sorted_wrt (<) (pageNumbers (paginationRange_f64 10 1 0 5))
   \<and> hd (paginationRange_f64 10 1 0 5) = DOTS
   \<and> last (paginationRange_f64 10 1 0 5) = DOTS"
  using range_increasing_first_last [of 10 1 1 5] range_increasing_first_last [of 10 1 0 5]
  by simp

subsection \<open>What an ellipsis stands for\<close>

text \<open>
  Claim C2 as stated fails from \<open>2^53\<close> on. With \<open>total = 2^53\<close>, \<open>siblings = boundaries =
  0\<close> and current page \<open>2^53 - 2\<close>, \<^verbatim>\<open>total - boundaries + 1\<close> rounds to \<open>2^53\<close>: the
  range is \<open>dots, 2^53 - 2, dots, 2^53\<close>, and its second marker stands for the one page
  \<open>2^53 - 1\<close>.
\<close>

theorem ellipsis_elides_one_page_counterexample:
  "(1::int) \<le> 9007199254740992 \<and> (0::int) \<le> 0 \<and> (1::int) \<le> 9007199254740990
   \<and> (9007199254740990::int) \<le> 9007199254740992
   \<and> paginationRange_f64 9007199254740992 0 0 9007199254740990 =
       [DOTS, Page 9007199254740990, DOTS, Page 9007199254740992]
   \<and> elided 9007199254740992 0 (paginationRange_f64 9007199254740992 0 0 9007199254740990) =
       [9007199254740989, 1]
   \<and> \<not> (2::int) \<le> 1"
proof -
  have 1: "paginationRange_f64 9007199254740992 0 0 9007199254740990 =
       [DOTS, Page 9007199254740990, DOTS, Page 9007199254740992]"
    by (simp add: f64_eval)
  show ?thesis unfolding 1 by simp
qed

text \<open>
  Claim C2, amended: for every \<open>total\<close> with \<open>1 \<le> total < 2^53\<close>, \<open>siblings \<ge> 0\<close>,
  \<open>boundaries \<ge> 0\<close> and current page in \<open>[1, total]\<close>, each ellipsis marker of the range
  stands for at least two consecutive pages: the number \<open>g\<close> of pages between the page
  number before the marker and the page number after it is never \<open>1\<close> (nor less).
\<close>

theorem ellipsis_elides_at_least_two:
  assumes "1 \<le> t" and "t < 2 ^ 53" and "0 \<le> s" and "0 \<le> b" and "1 \<le> p" and "p \<le> t"
    and "g \<in> set (elided t 0 (paginationRange_f64 t s b p))"
  shows "2 \<le> g"
proof -
  from assms have "paginationRange_f64 t s b p = paginationRange t s b p"
    by (intro paginationRange_f64_exact) simp_all
  with assms(7) have "g \<in> set (elided t 0 (paginationRange t s b p))" by simp
  with assms(1,3-6) show ?thesis by (rule range_elided)
qed

theorem ellipsis_elides_at_least_two_witness:
  "(1::int) \<le> 10 \<and> (10::int) < 2 ^ 53 \<and> (0::int) \<le> 1 \<and> (1::int) \<le> 5 \<and> (5::int) \<le> 10
   \<and> elided 10 0 (paginationRange_f64 10 1 1 5) = [2, 3]
   \<and> (2::int) \<le> 3"
proof -
  have e: "elided 10 0 (paginationRange_f64 10 1 1 5) = [2, 3]"
    by (simp add: f64_eval)
  then have "3 \<in> set (elided 10 0 (paginationRange_f64 10 1 1 5))" by simp
  with e ellipsis_elides_at_least_two [of 10 1 1 5 3] show ?thesis by simp
qed

subsection \<open>The dense range\<close>



subsection \<open>Length\<close>

text \<open>
  Claim C6 as stated fails from \<open>2^53\<close> on. With \<open>total = 2^53\<close>, \<open>siblings = boundaries =
  0\<close> and current page \<open>1\<close>, \<^verbatim>\<open>total - (boundaries - 1)\<close> rounds to \<open>2^53\<close>, so that the run
  of boundary pages has one entry where it should have none: the range is \<open>1, 2, dots,
  2^53\<close>, of length \<open>4\<close>, and the bound is \<open>3\<close>.
\<close>

theorem range_length_counterexample:
  "(0::int) \<le> 9007199254740992 \<and> (0::int) \<le> 0 \<and> (1::int) \<le> 1
   \<and> (1::int) \<le> 9007199254740992
   \<and> paginationRange_f64 9007199254740992 0 0 1 =
       [Page 1, Page 2, DOTS, Page 9007199254740992]
   \<and> \<not> int (length (paginationRange_f64 9007199254740992 0 0 1)) \<le> 2 * 0 + 2 * 0 + 3"
proof -
  have 1: "paginationRange_f64 9007199254740992 0 0 1 =
       [Page 1, Page 2, DOTS, Page 9007199254740992]"
    by (simp add: f64_eval)
  show ?thesis unfolding 1 by simp
qed

text \<open>
  Claim C6, amended: for every \<open>total\<close> with \<open>0 \<le> total < 2^53\<close>, \<open>siblings \<ge> 0\<close> and
  \<open>boundaries \<ge> 0\<close>, the length of the range, page numbers and ellipsis markers
  together, is at most \<open>2 * boundaries + 2 * siblings + 3\<close>. This holds for every current
  page from \<open>0\<close> to below \<open>2^53\<close>, so for those in \<open>[1, total]\<close>, and also for the page that
  the hook holds when \<open>total = 0\<close>.
\<close>

theorem range_length_bound:
  assumes "0 \<le> t" and "t < 2 ^ 53" and "0 \<le> s" and "0 \<le> b" and "0 \<le> p" and "p < 2 ^ 53"
  shows "int (length (paginationRange_f64 t s b p)) \<le> 2 * b + 2 * s + 3"
proof -
  from assms have "paginationRange_f64 t s b p = paginationRange t s b p"
    by (intro paginationRange_f64_exact) simp_all
  with assms range_length [of t s b p] show ?thesis by simp
qed

theorem range_length_bound_witness:
  "(0::int) \<le> 10 \<and> (10::int) < 2 ^ 53 \<and> (0::int) \<le> 1 \<and> (0::int) \<le> 5 \<and> (5::int) < 2 ^ 53
   \<and> length (paginationRange_f64 10 1 1 5) = 7
   \<and> int (length (paginationRange_f64 10 1 1 5)) \<le> 2 * 1 + 2 * 1 + 3"
proof -
  have "length (paginationRange_f64 10 1 1 5) = 7"
    by (simp add: f64_eval)
  with range_length_bound [of 10 1 1 5] show ?thesis by simp
qed

subsection \<open>The range of no pages\<close>

text \<open>
  Claim C8: when \<open>total = 0\<close> (with \<open>siblings \<ge> 0\<close> and \<open>boundaries \<ge> 0\<close>, as the data
  model has them), the range is the empty sequence, and the page that the hook reports
  is no valid selection. A hook that owns its page reports page \<open>1\<close>, whatever
  \<open>initialPage\<close> is; the rule of lines 67 and 68 rejects this value, which exceeds
  \<open>total\<close>. In either mode the reported page is not a page of \<open>[1, total]\<close>.
\<close>

theorem range_empty_when_total_zero:
  assumes "0 \<le> s" and "0 \<le> b"
  shows "paginationRange_f64 0 s b (active 0 page initialPage) = []
    \<and> active 0 None initialPage = 1
    \<and> \<not> rule 0 (Some (active 0 None initialPage))
    \<and> 0 < active 0 None initialPage
    \<and> \<not> (1 \<le> active 0 page initialPage \<and> active 0 page initialPage \<le> 0)"
  using assms f64_total_zero [of s b "active 0 page initialPage"]
  by (simp add: active_def initialActivePage_def rule_def)

theorem range_empty_when_total_zero_witness:
  "(0::int) \<le> 1
   \<and> paginationRange_f64 0 1 1 (active 0 None 1) = []
   \<and> active 0 None 1 = 1
   \<and> \<not> rule 0 (Some (active 0 None 1))"
  using range_empty_when_total_zero [of 1 1 None 1] by auto

subsection \<open>The current page\<close>

text \<open>
  Claim C9 as stated fails from \<open>2^53\<close> on. With \<open>total = 2^53 + 6\<close>, \<open>siblings = 1\<close>,
  \<open>boundaries = 0\<close> and current page \<open>2^53 + 2\<close>, \<^verbatim>\<open>total - rightItemCount\<close> rounds from
  \<open>2^53 + 3\<close> to \<open>2^53 + 4\<close>: the range is \<open>dots, 2^53 + 4, 2^53 + 4, 2^53 + 6\<close>, without
  the current page.
\<close>

theorem range_misses_active_page_counterexample:
  "(1::int) \<le> 9007199254740998 \<and> (0::int) \<le> 1 \<and> (0::int) \<le> 0
   \<and> (1::int) \<le> 9007199254740994 \<and> (9007199254740994::int) \<le> 9007199254740998
   \<and> paginationRange_f64 9007199254740998 1 0 9007199254740994 =
       [DOTS, Page 9007199254740996, Page 9007199254740996, Page 9007199254740998]
   \<and> Page 9007199254740994 \<notin> set (paginationRange_f64 9007199254740998 1 0 9007199254740994)"
proof -
  have 1: "paginationRange_f64 9007199254740998 1 0 9007199254740994 =
       [DOTS, Page 9007199254740996, Page 9007199254740996, Page 9007199254740998]"
    by (simp add: f64_eval)
  show ?thesis unfolding 1 by simp
qed

text \<open>
  Claim C9, amended: for every \<open>total\<close> with \<open>1 \<le> total < 2^53\<close>, \<open>siblings \<ge> 0\<close>,
  \<open>boundaries \<ge> 0\<close> and current page in \<open>[1, total]\<close>, the range contains the current
  page itself as a numeric token: the active page is never hidden behind an ellipsis.
\<close>

theorem range_contains_active_page:
  assumes "1 \<le> t" and "t < 2 ^ 53" and "0 \<le> s" and "0 \<le> b" and "1 \<le> p" and "p \<le> t"
  shows "Page p \<in> set (paginationRange_f64 t s b p)"
proof -
  from assms have "paginationRange_f64 t s b p = paginationRange t s b p"
    by (intro paginationRange_f64_exact) simp_all
  with assms range_member [of t s b p] show ?thesis by simp
qed

theorem range_contains_active_page_witness:
  "(1::int) \<le> 10 \<and> (10::int) < 2 ^ 53 \<and> (0::int) \<le> 1 \<and> (1::int) \<le> 5 \<and> (5::int) \<le> 10
   \<and> Page 5 \<in> set (paginationRange_f64 10 1 1 5)"
  using range_contains_active_page [of 10 1 1 5] by simp

subsection \<open>The bounds of the page numbers\<close>



subsection \<open>The memoised range\<close>

text \<open>
  On a first render (nothing memoised) the hook returns what the range computation
  gives for its four inputs.
\<close>

lemma usePagination_first_render:
  "memo st = None \<Longrightarrow>
   fst (usePagination t s b st) = paginationRange t s b (activePage st)"
  by (simp add: usePagination_def useMemo_def Let_def)

text \<open>
  While \<^verbatim>\<open>total\<close>, \<^verbatim>\<open>siblings\<close> and the active page stay what they were at the last
  computation, the hook returns the stored range, whatever \<^verbatim>\<open>boundaries\<close> is now.
\<close>

lemma usePagination_memoised:
  "memo st = Some ((t, s, activePage st), r) \<Longrightarrow> fst (usePagination t s b st) = r"
  by (simp add: usePagination_def useMemo_def)

text \<open>
  Claim C4 says that the range depends on the four inputs \<^verbatim>\<open>total\<close>, the current
  page, \<^verbatim>\<open>siblings\<close> and \<^verbatim>\<open>boundaries\<close> only, and on no hidden state. The code keeps
  a memoised range whose dependency array (line 134) leaves \<^verbatim>\<open>boundaries\<close> out. A
  hook on page \<open>1\<close> rendered with \<open>total = 10\<close>, \<open>siblings = 1\<close>, \<open>boundaries = 1\<close> and then
  with \<open>boundaries = 2\<close> returns, at the second render, the range \<open>1, 2, 3, 4, 5, dots,
  10\<close> computed for \<open>boundaries = 1\<close>; a hook rendered for the first time with the same
  four inputs \<open>10, 1, 1, 2\<close> returns \<open>1, 2, 3, 4, 5, 6, dots, 9, 10\<close>.
\<close>

theorem usePagination_stale_boundaries:
  "fst (usePagination 10 1 2 (snd (usePagination 10 1 1 \<lparr>activePage = 1, memo = None\<rparr>)))
     = [Page 1, Page 2, Page 3, Page 4, Page 5, DOTS, Page 10]
   \<and> activePage (snd (usePagination 10 1 1 \<lparr>activePage = 1, memo = None\<rparr>)) = 1
   \<and> fst (usePagination 10 1 2 \<lparr>activePage = 1, memo = None\<rparr>)
     = [Page 1, Page 2, Page 3, Page 4, Page 5, Page 6, DOTS, Page 9, Page 10]
   \<and> paginationRange 10 1 2 1
     = [Page 1, Page 2, Page 3, Page 4, Page 5, Page 6, DOTS, Page 9, Page 10]"
  by (simp add: hook_eval range_eval)

section \<open>Navigation\<close>

subsection \<open>Clamping\<close>

text \<open>
  Claim C3 as stated fails when there are no pages. With \<open>total = 0\<close>, \<^verbatim>\<open>setPage(0)\<close>
  leaves the hook on page \<open>1\<close>, which is not a page of \<open>[1, 0]\<close>; no page is.
\<close>

theorem setPage_valid_page_counterexample:
  "(0::int) \<le> 0
   \<and> activePage (setPage 0 0 \<lparr>activePage = 1, memo = None\<rparr>) = 1
   \<and> \<not> (1 \<le> activePage (setPage 0 0 \<lparr>activePage = 1, memo = None\<rparr>)
        \<and> activePage (setPage 0 0 \<lparr>activePage = 1, memo = None\<rparr>) \<le> 0)"
  by (simp add: hook_eval)

text \<open>
  Claim C3, amended: for every \<open>total \<ge> 0\<close> and every integer page argument,
  \<^verbatim>\<open>setPage\<close> leaves the hook on page \<open>1\<close> when \<open>page \<le> 0\<close>, on page \<open>total\<close> when
  \<open>page > total\<close>, and on \<open>page\<close> itself otherwise; it is a total function and raises
  nothing. In particular \<^verbatim>\<open>setPage(0)\<close> and \<^verbatim>\<open>setPage(-5)\<close> both give \<open>1\<close>, and
  \<^verbatim>\<open>setPage(total + 50)\<close> gives \<open>total\<close>. When \<open>total \<ge> 1\<close> the resulting page is a
  valid page of \<open>[1, total]\<close>.
\<close>

theorem setPage_clamps:
  assumes "0 \<le> t"
  shows "(page \<le> 0 \<longrightarrow> activePage (setPage t page st) = 1)
    \<and> (t < page \<longrightarrow> activePage (setPage t page st) = t)
    \<and> (0 < page \<and> page \<le> t \<longrightarrow> activePage (setPage t page st) = page)
    \<and> activePage (setPage t 0 st) = 1
    \<and> activePage (setPage t (- 5) st) = 1
    \<and> activePage (setPage t (t + 50) st) = t
    \<and> (1 \<le> t \<longrightarrow>
         1 \<le> activePage (setPage t page st) \<and> activePage (setPage t page st) \<le> t)"
  using assms by (simp add: setPage_def setActivePage_def)

theorem setPage_clamps_witness:
  "(0::int) \<le> 10 \<and> (1::int) \<le> 10
   \<and> activePage (setPage 10 0 \<lparr>activePage = 3, memo = None\<rparr>) = 1
   \<and> activePage (setPage 10 (- 5) \<lparr>activePage = 3, memo = None\<rparr>) = 1
   \<and> activePage (setPage 10 60 \<lparr>activePage = 3, memo = None\<rparr>) = 10
   \<and> activePage (setPage 10 7 \<lparr>activePage = 3, memo = None\<rparr>) = 7
   \<and> 1 \<le> activePage (setPage 10 7 \<lparr>activePage = 3, memo = None\<rparr>)
   \<and> activePage (setPage 10 7 \<lparr>activePage = 3, memo = None\<rparr>) \<le> 10"
  using setPage_clamps [of 10 0 "\<lparr>activePage = 3, memo = None\<rparr>"]
    setPage_clamps [of 10 60 "\<lparr>activePage = 3, memo = None\<rparr>"]
    setPage_clamps [of 10 7 "\<lparr>activePage = 3, memo = None\<rparr>"]
  by simp

subsection \<open>Clamping twice\<close>

text \<open>
  Claim C7 as stated fails when there are no pages. With \<open>total = 0\<close>, \<^verbatim>\<open>setPage(5)\<close>
  leaves the hook on page \<open>0\<close> (the branch \<^verbatim>\<open>pageNumber > total\<close>), and \<^verbatim>\<open>setPage\<close> of
  that page leaves it on page \<open>1\<close> (the branch \<^verbatim>\<open>pageNumber <= 0\<close>).
\<close>

theorem setPage_idempotent_counterexample:
  "(0::int) \<le> 0
   \<and> activePage (setPage 0 5 \<lparr>activePage = 1, memo = None\<rparr>) = 0
   \<and> activePage
        (setPage 0 (activePage (setPage 0 5 \<lparr>activePage = 1, memo = None\<rparr>))
          (setPage 0 5 \<lparr>activePage = 1, memo = None\<rparr>)) = 1
   \<and> setPage 0 (activePage (setPage 0 5 \<lparr>activePage = 1, memo = None\<rparr>))
        (setPage 0 5 \<lparr>activePage = 1, memo = None\<rparr>)
      \<noteq> setPage 0 5 \<lparr>activePage = 1, memo = None\<rparr>"
  by (simp add: hook_eval)

text \<open>
  Claim C7, amended: for every \<open>total \<ge> 1\<close> and every integer \<open>x\<close>, \<^verbatim>\<open>setPage\<close> is
  idempotent: calling it again with the page it has just set changes nothing.
\<close>

theorem setPage_idempotent:
  assumes "1 \<le> t"
  shows "setPage t (activePage (setPage t x st)) (setPage t x st) = setPage t x st"
  using assms by (simp add: setPage_def setActivePage_def)

theorem setPage_idempotent_witness:
  "(1::int) \<le> 10
   \<and> setPage 10 (activePage (setPage 10 60 \<lparr>activePage = 3, memo = None\<rparr>))
        (setPage 10 60 \<lparr>activePage = 3, memo = None\<rparr>)
      = setPage 10 60 \<lparr>activePage = 3, memo = None\<rparr>
   \<and> activePage (setPage 10 60 \<lparr>activePage = 3, memo = None\<rparr>) = 10"
  using setPage_idempotent [of 10 60 "\<lparr>activePage = 3, memo = None\<rparr>"]
  by (simp add: hook_eval)

end
